theory Spec2Isabelle
  imports Complex_Main "HOL-Library.Sublist"
begin

section \<open>Data model of core.interaction.js\<close>

text \<open>
  The axis mode of a query is one of the strings 'x', 'y' and 'xy'
  (\<^verbatim>\<open>@param {string} axis - the axis mode. x|y|xy\<close>). The functions below compare,
  search and index it as a string, so the model keeps the string beside the constructor.
\<close>

datatype axis = AxisX | AxisY | AxisXY

fun axis_name :: "axis \<Rightarrow> string" where
  "axis_name AxisX = ''x''"
| "axis_name AxisY = ''y''"
| "axis_name AxisXY = ''xy''"

text \<open>
  Modelled from the spec: the scale class is not among the sources. An index scale is the
  axis along which the data points are ordered; it is named by its \<^verbatim>\<open>axis\<close>
  property ('x' or 'y', and 'r' for a radial scale, which lies along neither) and carries
  the \<^verbatim>\<open>_reversePixels\<close> flag. 'xy' names both axes of a query, never a scale.
\<close>

datatype scale_dir = ScaleX | ScaleY | ScaleR

fun scale_dir_name :: "scale_dir \<Rightarrow> string" where
  "scale_dir_name ScaleX = ''x''"
| "scale_dir_name ScaleY = ''y''"
| "scale_dir_name ScaleR = ''r''"

record scale =
  scale_axis :: scale_dir
  reversePixels :: bool

record position =
  pos_x :: real
  pos_y :: real

record area =
  area_left :: real
  area_top :: real
  area_right :: real
  area_bottom :: real

text \<open>
  An element is used through its capabilities only. \<open>el_x\<close> and \<open>el_y\<close> are the
  properties \<^verbatim>\<open>el.x\<close> and \<^verbatim>\<open>el.y\<close>, which the key lookups read as
  \<^verbatim>\<open>table[mid][key]\<close>. \<open>getRange\<close> is \<open>None\<close> where the element has no
  \<^verbatim>\<open>getRange\<close> method or the method returns no number.
\<close>

record element =
  skip :: bool
  el_x :: real
  el_y :: real
  inRange :: "real \<Rightarrow> real \<Rightarrow> bool"
  inXRange :: "real \<Rightarrow> bool"
  inYRange :: "real \<Rightarrow> bool"
  getCenterPoint :: position
  getRange :: "axis \<Rightarrow> real option"

text \<open>
  A dataset meta: \<open>iScale\<close> is \<^verbatim>\<open>controller._cachedMeta.iScale\<close> (absent when
  falsy), \<open>sharedOptions\<close> the truth value of \<^verbatim>\<open>controller._sharedOptions\<close>,
  \<open>sorted_flag\<close> that of \<^verbatim>\<open>_sorted\<close>.
\<close>

record metaset =
  index_meta :: nat
  data :: "element list"
  sorted_flag :: bool
  iScale :: "scale option"
  sharedOptions :: bool

record match =
  element :: element
  datasetIndex :: nat
  index :: int

record chart =
  chartArea :: area
  getSortedVisibleDatasetMetas :: "metaset list"
  getDatasetMeta :: "nat \<Rightarrow> metaset"

record options =
  opt_axis :: "axis option"
  intersect :: bool

record bounds =
  lo :: int
  hi :: int

text \<open>An event either carries the key \<^verbatim>\<open>native\<close> and its own coordinates, or is a
  platform event, which only the DOM helper can read.\<close>

typedecl dom_event

datatype event = IEvent real real | DomEvent dom_event

text \<open>
  The imported helpers (\<^verbatim>\<open>helpers.dom.getRelativePosition\<close>,
  \<^verbatim>\<open>_isPointInArea\<close>, \<^verbatim>\<open>_lookupByKey\<close>, \<^verbatim>\<open>_rlookupByKey\<close>) are
  not among the sources: every function takes them as the parameter \<open>H\<close>.
  A number that may be \<^verbatim>\<open>undefined\<close> or NaN is a \<open>real option\<close>.
\<close>

type_synonym lookup = "element list \<Rightarrow> axis \<Rightarrow> real option \<Rightarrow> bounds"

record helpers =
  lookupByKey :: lookup
  rlookupByKey :: lookup
  isPointInArea :: "position \<Rightarrow> area \<Rightarrow> bool"
  dom_getRelativePosition :: "dom_event \<Rightarrow> chart \<Rightarrow> position"

datatype error = TypeError

text \<open>\<^verbatim>\<open>data[j]\<close>: \<^verbatim>\<open>undefined\<close> outside the array.\<close>

definition js_nth :: "'a list \<Rightarrow> int \<Rightarrow> 'a option" where
  "js_nth xs j = (if 0 \<le> j \<and> j < int (length xs) then Some (xs ! nat j) else None)"

text \<open>\<^verbatim>\<open>position[axis]\<close>: a position has no property 'xy'.\<close>

fun position_at :: "position \<Rightarrow> axis \<Rightarrow> real option" where
  "position_at p AxisX = Some (pos_x p)"
| "position_at p AxisY = Some (pos_y p)"
| "position_at p AxisXY = None"

text \<open>\<^verbatim>\<open>el[key]\<close>, as the key lookups read it.\<close>

fun prop_at :: "element \<Rightarrow> axis \<Rightarrow> real option" where
  "prop_at el AxisX = Some (el_x el)"
| "prop_at el AxisY = Some (el_y el)"
| "prop_at el AxisXY = None"

section \<open>Position resolver\<close>

fun getRelativePosition :: "helpers \<Rightarrow> event \<Rightarrow> chart \<Rightarrow> position" where
  "getRelativePosition H (IEvent ex ey) c = \<lparr>pos_x = ex, pos_y = ey\<rparr>"
| "getRelativePosition H (DomEvent d) c = dom_getRelativePosition H d c"

section \<open>Traversals\<close>

text \<open>A handler is a callback that mutates variables of its closure: here it takes the
  closure's state and returns the new one.\<close>

type_synonym 's handler = "element \<Rightarrow> nat \<Rightarrow> int \<Rightarrow> 's \<Rightarrow> 's"

text \<open>The inner loop of \<open>evaluateAllVisibleItems\<close>, at index \<open>j\<close> with the rest of
  the array.\<close>

fun evaluateData :: "'s handler \<Rightarrow> nat \<Rightarrow> element list \<Rightarrow> int \<Rightarrow> 's \<Rightarrow> 's" where
  "evaluateData handler idx [] j s = s"
| "evaluateData handler idx (el # els) j s =
     evaluateData handler idx els (j + 1) (if \<not> skip el then handler el idx j s else s)"

fun evaluateMetasets :: "'s handler \<Rightarrow> metaset list \<Rightarrow> 's \<Rightarrow> 's" where
  "evaluateMetasets handler [] s = s"
| "evaluateMetasets handler (m # ms) s =
     evaluateMetasets handler ms (evaluateData handler (index_meta m) (data m) 0 s)"

definition evaluateAllVisibleItems :: "chart \<Rightarrow> 's handler \<Rightarrow> 's \<Rightarrow> 's" where
  "evaluateAllVisibleItems c handler s =
     evaluateMetasets handler (getSortedVisibleDatasetMetas c) s"

text \<open>\<^verbatim>\<open>value - range\<close> and \<^verbatim>\<open>value + range\<close> on a value that may be undefined.\<close>

definition js_minus :: "real option \<Rightarrow> real \<Rightarrow> real option" where
  "js_minus v r = map_option (\<lambda>a. a - r) v"

definition js_plus :: "real option \<Rightarrow> real \<Rightarrow> real option" where
  "js_plus v r = map_option (\<lambda>a. a + r) v"

definition binarySearch :: "helpers \<Rightarrow> metaset \<Rightarrow> axis \<Rightarrow> real option \<Rightarrow> bool \<Rightarrow> bounds" where
  "binarySearch H metaset ax v isect =
     (let default_range = \<lparr>lo = 0, hi = int (length (data metaset)) - 1\<rparr> in
      case iScale metaset of
        None \<Rightarrow> default_range
      | Some sc \<Rightarrow>
          if axis_name ax = scale_dir_name (scale_axis sc) \<and> sorted_flag metaset
             \<and> data metaset \<noteq> []
          then
            (let lookupMethod = (if reversePixels sc then rlookupByKey H else lookupByKey H) in
             if \<not> isect then lookupMethod (data metaset) ax v
             else if sharedOptions metaset then
               (case getRange (hd (data metaset)) ax of
                  None \<Rightarrow> default_range
                | Some rng \<Rightarrow>
                    if rng \<noteq> 0 then
                      \<lparr>lo = lo (lookupMethod (data metaset) ax (js_minus v rng)),
                       hi = hi (lookupMethod (data metaset) ax (js_plus v rng))\<rparr>
                    else default_range)
             else default_range)
          else default_range)"

text \<open>The inner loop of \<open>optimizedEvaluateItems\<close>, \<^verbatim>\<open>for (let j = lo; j <= hi; ++j)\<close>:
  reading \<^verbatim>\<open>element.skip\<close> of an undefined element raises a TypeError.\<close>

function evaluateRange :: "'s handler \<Rightarrow> nat \<Rightarrow> element list \<Rightarrow> int \<Rightarrow> int \<Rightarrow> 's \<Rightarrow> error + 's" where
  "evaluateRange handler idx dat j h s =
     (if j \<le> h then
        (case js_nth dat j of
           None \<Rightarrow> Inl TypeError
         | Some el \<Rightarrow>
             evaluateRange handler idx dat (j + 1) h (if \<not> skip el then handler el idx j s else s))
      else Inr s)"
  by pat_completeness auto
termination
  by (relation "measure (\<lambda>(handler, idx, dat, j, h, s). nat (h + 1 - j))") auto

declare evaluateRange.simps [simp del]

fun optimizedMetasets ::
  "helpers \<Rightarrow> axis \<Rightarrow> real option \<Rightarrow> 's handler \<Rightarrow> bool \<Rightarrow> metaset list \<Rightarrow> 's \<Rightarrow> error + 's" where
  "optimizedMetasets H ax v handler isect [] s = Inr s"
| "optimizedMetasets H ax v handler isect (m # ms) s =
     (let r = binarySearch H m ax v isect in
      case evaluateRange handler (index_meta m) (data m) (lo r) (hi r) s of
        Inl e \<Rightarrow> Inl e
      | Inr s' \<Rightarrow> optimizedMetasets H ax v handler isect ms s')"

definition optimizedEvaluateItems ::
  "helpers \<Rightarrow> chart \<Rightarrow> axis \<Rightarrow> position \<Rightarrow> 's handler \<Rightarrow> bool \<Rightarrow> 's \<Rightarrow> error + 's" where
  "optimizedEvaluateItems H c ax p handler isect s =
     optimizedMetasets H ax (position_at p ax) handler isect (getSortedVisibleDatasetMetas c) s"

section \<open>Distance metric\<close>

definition getDistanceMetricForAxis :: "axis \<Rightarrow> position \<Rightarrow> position \<Rightarrow> real" where
  "getDistanceMetricForAxis ax pt1 pt2 =
     (let useX = (CHR ''x'' \<in> set (axis_name ax));
          useY = (CHR ''y'' \<in> set (axis_name ax));
          deltaX = (if useX then \<bar>pos_x pt1 - pos_x pt2\<bar> else 0);
          deltaY = (if useY then \<bar>pos_y pt1 - pos_y pt2\<bar> else 0)
      in sqrt (deltaX ^ 2 + deltaY ^ 2))"

section \<open>Intersecting and nearest items\<close>

definition intersectFunc :: "position \<Rightarrow> match list handler" where
  "intersectFunc p el dsi i items =
     (if inRange el (pos_x p) (pos_y p)
      then items @ [\<lparr>element = el, datasetIndex = dsi, index = i\<rparr>]
      else items)"

definition getIntersectItems :: "helpers \<Rightarrow> chart \<Rightarrow> position \<Rightarrow> axis \<Rightarrow> error + match list" where
  "getIntersectItems H c p ax =
     (if \<not> isPointInArea H p (chartArea c) then Inr []
      else optimizedEvaluateItems H c ax p (intersectFunc p) True [])"

text \<open>The closure state of \<open>getNearestItems\<close>: \<open>items\<close> and \<open>minDistance\<close>, which
  starts at positive infinity (\<open>None\<close>).\<close>

type_synonym nearest_state = "match list \<times> real option"

definition nearestFunc :: "position \<Rightarrow> axis \<Rightarrow> bool \<Rightarrow> nearest_state handler" where
  "nearestFunc p ax isect el dsi i st =
     (if isect \<and> \<not> inRange el (pos_x p) (pos_y p) then st
      else
        (let center = getCenterPoint el;
             distance = getDistanceMetricForAxis ax p center;
             item = \<lparr>element = el, datasetIndex = dsi, index = i\<rparr>
         in case snd st of
              None \<Rightarrow> ([item], Some distance)
            | Some minDistance \<Rightarrow>
                if distance < minDistance then ([item], Some distance)
                else if distance = minDistance then (fst st @ [item], Some minDistance)
                else st))"

text \<open>\<open>getNearestItems\<close> never hands its \<open>intersect\<close> to the traversal: the search
  range is the one of a query without intersection.\<close>

definition getNearestItems ::
  "helpers \<Rightarrow> chart \<Rightarrow> position \<Rightarrow> axis \<Rightarrow> bool \<Rightarrow> error + match list" where
  "getNearestItems H c p ax isect =
     (if \<not> isPointInArea H p (chartArea c) then Inr []
      else
        (case optimizedEvaluateItems H c ax p (nearestFunc p ax isect) False ([], None) of
           Inl e \<Rightarrow> Inl e
         | Inr st \<Rightarrow> Inr (fst st)))"

section \<open>The modes\<close>

text \<open>Index mode. \<open>index_items\<close> is the first search (lines 212 to 215); the loop over
  the visible metasets then collects the element of each at the index of the first item.\<close>

definition or_default :: "'a option \<Rightarrow> 'a \<Rightarrow> 'a" where
  "or_default v d = (case v of None \<Rightarrow> d | Some a \<Rightarrow> a)"

definition index_items :: "helpers \<Rightarrow> chart \<Rightarrow> event \<Rightarrow> options \<Rightarrow> error + match list" where
  "index_items H c e opts =
     (let p = getRelativePosition H e c;
          ax = or_default (opt_axis opts) AxisX
      in if intersect opts then getIntersectItems H c p ax
         else getNearestItems H c p ax False)"

fun index_collect :: "metaset list \<Rightarrow> int \<Rightarrow> match list \<Rightarrow> match list" where
  "index_collect [] i elements = elements"
| "index_collect (meta # metas) i elements =
     index_collect metas i
       (case js_nth (data meta) i of
          None \<Rightarrow> elements
        | Some el \<Rightarrow>
            if \<not> skip el
            then elements @ [\<lparr>element = el, datasetIndex = index_meta meta, index = i\<rparr>]
            else elements)"

definition mode_index :: "helpers \<Rightarrow> chart \<Rightarrow> event \<Rightarrow> options \<Rightarrow> error + match list" where
  "mode_index H c e opts =
     (case index_items H c e opts of
        Inl err \<Rightarrow> Inl err
      | Inr [] \<Rightarrow> Inr []
      | Inr (item # _) \<Rightarrow> Inr (index_collect (getSortedVisibleDatasetMetas c) (index item) []))"

text \<open>Dataset mode: the loop \<^verbatim>\<open>for (let i = 0; i < data.length; ++i)\<close> pushes every
  element of the dataset of the first item.\<close>

fun dataset_collect :: "element list \<Rightarrow> nat \<Rightarrow> int \<Rightarrow> match list \<Rightarrow> match list" where
  "dataset_collect [] dsi i items = items"
| "dataset_collect (el # els) dsi i items =
     dataset_collect els dsi (i + 1) (items @ [\<lparr>element = el, datasetIndex = dsi, index = i\<rparr>])"

definition mode_dataset :: "helpers \<Rightarrow> chart \<Rightarrow> event \<Rightarrow> options \<Rightarrow> error + match list" where
  "mode_dataset H c e opts =
     (let p = getRelativePosition H e c;
          ax = or_default (opt_axis opts) AxisXY
      in case (if intersect opts then getIntersectItems H c p ax
               else getNearestItems H c p ax False) of
           Inl err \<Rightarrow> Inl err
         | Inr [] \<Rightarrow> Inr []
         | Inr (item # _) \<Rightarrow>
             Inr (dataset_collect (data (getDatasetMeta c (datasetIndex item)))
                    (datasetIndex item) 0 []))"

definition mode_point :: "helpers \<Rightarrow> chart \<Rightarrow> event \<Rightarrow> options \<Rightarrow> error + match list" where
  "mode_point H c e opts =
     getIntersectItems H c (getRelativePosition H e c) (or_default (opt_axis opts) AxisXY)"

definition mode_nearest :: "helpers \<Rightarrow> chart \<Rightarrow> event \<Rightarrow> options \<Rightarrow> error + match list" where
  "mode_nearest H c e opts =
     getNearestItems H c (getRelativePosition H e c) (or_default (opt_axis opts) AxisXY)
       (intersect opts)"

text \<open>Modes x and y: the closure state is \<open>items\<close> and \<open>intersectsItem\<close>.\<close>

definition xFunc :: "position \<Rightarrow> (match list \<times> bool) handler" where
  "xFunc p el dsi i st =
     (let items = (if inXRange el (pos_x p)
                   then fst st @ [\<lparr>element = el, datasetIndex = dsi, index = i\<rparr>]
                   else fst st)
      in (items, if inRange el (pos_x p) (pos_y p) then True else snd st))"

definition yFunc :: "position \<Rightarrow> (match list \<times> bool) handler" where
  "yFunc p el dsi i st =
     (let items = (if inYRange el (pos_y p)
                   then fst st @ [\<lparr>element = el, datasetIndex = dsi, index = i\<rparr>]
                   else fst st)
      in (items, if inRange el (pos_x p) (pos_y p) then True else snd st))"

definition mode_x :: "helpers \<Rightarrow> chart \<Rightarrow> event \<Rightarrow> options \<Rightarrow> match list" where
  "mode_x H c e opts =
     (let p = getRelativePosition H e c;
          st = evaluateAllVisibleItems c (xFunc p) ([], False)
      in if intersect opts \<and> \<not> snd st then [] else fst st)"

definition mode_y :: "helpers \<Rightarrow> chart \<Rightarrow> event \<Rightarrow> options \<Rightarrow> match list" where
  "mode_y H c e opts =
     (let p = getRelativePosition H e c;
          st = evaluateAllVisibleItems c (yFunc p) ([], False)
      in if intersect opts \<and> \<not> snd st then [] else fst st)"

text \<open>The table \<^verbatim>\<open>modes\<close>, by the name of the mode.\<close>

datatype mode = Index | Dataset | Point | Nearest | ModeX | ModeY

fun modes :: "mode \<Rightarrow> helpers \<Rightarrow> chart \<Rightarrow> event \<Rightarrow> options \<Rightarrow> error + match list" where
  "modes Index H c e opts = mode_index H c e opts"
| "modes Dataset H c e opts = mode_dataset H c e opts"
| "modes Point H c e opts = mode_point H c e opts"
| "modes Nearest H c e opts = mode_nearest H c e opts"
| "modes ModeX H c e opts = Inr (mode_x H c e opts)"
| "modes ModeY H c e opts = Inr (mode_y H c e opts)"

section \<open>Traces of the traversals\<close>

text \<open>The handler that only records the triples it is called on, and the run of a
  handler over recorded triples.\<close>

type_synonym visit = "element \<times> nat \<times> int"

definition record_visit :: "visit list handler" where
  "record_visit el dsi i visits = visits @ [(el, dsi, i)]"

definition apply_handler :: "'s handler \<Rightarrow> 's \<Rightarrow> visit list \<Rightarrow> 's" where
  "apply_handler handler s visits = foldl (\<lambda>st (el, dsi, i). handler el dsi i st) s visits"

definition to_match :: "visit \<Rightarrow> match" where
  "to_match t = \<lparr>element = fst t, datasetIndex = fst (snd t), index = snd (snd t)\<rparr>"

text \<open>The visible items as the spec describes them: every element of every visible
  dataset, in order, that is not skipped.\<close>

definition items_of :: "metaset \<Rightarrow> visit list" where
  "items_of m =
     filter (\<lambda>t. \<not> skip (fst t))
       (map (\<lambda>j. (data m ! j, index_meta m, int j)) [0..<length (data m)])"

definition visible_items :: "chart \<Rightarrow> visit list" where
  "visible_items c = concat (map items_of (getSortedVisibleDatasetMetas c))"

section \<open>The search range\<close>

text \<open>The condition under which \<open>binarySearch\<close> looks anything up.\<close>

definition can_search :: "metaset \<Rightarrow> axis \<Rightarrow> bool" where
  "can_search m ax =
     (case iScale m of
        None \<Rightarrow> False
      | Some sc \<Rightarrow> axis_name ax = scale_dir_name (scale_axis sc) \<and> sorted_flag m \<and> data m \<noteq> [])"

definition js_less :: "real option \<Rightarrow> real option \<Rightarrow> bool" where
  "js_less a b = (case (a, b) of (Some u, Some w) \<Rightarrow> u < w | _ \<Rightarrow> False)"

text \<open>
  Modelled from the spec: helpers.collection is not among the sources. A key lookup
  returns the index range that brackets the target in a table sorted by the key: \<open>lo\<close> is
  the last index whose key lies before the target (or the first index), \<open>hi\<close> the first
  index whose key lies after it (or the last index), so that elements that tie on the
  target and its nearest neighbours are inside. \<open>lookupByKey_spec\<close> is for ascending
  keys, \<open>rlookupByKey_spec\<close> for descending ones.
\<close>

definition lookupByKey_spec :: lookup where
  "lookupByKey_spec table key v =
     \<lparr>lo = max 0 (int (length (takeWhile (\<lambda>el. js_less (prop_at el key) v) table)) - 1),
      hi = min (int (length table) - 1)
             (int (length (takeWhile (\<lambda>el. \<not> js_less v (prop_at el key)) table)))\<rparr>"

definition rlookupByKey_spec :: lookup where
  "rlookupByKey_spec table key v =
     \<lparr>lo = max 0 (int (length (takeWhile (\<lambda>el. js_less v (prop_at el key)) table)) - 1),
      hi = min (int (length table) - 1)
             (int (length (takeWhile (\<lambda>el. \<not> js_less (prop_at el key) v) table)))\<rparr>"

text \<open>Modelled from the spec: helpers.canvas is not among the sources. The
  point-in-rectangle test of a position against the chart area.\<close>

definition isPointInArea_spec :: "position \<Rightarrow> area \<Rightarrow> bool" where
  "isPointInArea_spec p a =
     (area_left a \<le> pos_x p \<and> pos_x p \<le> area_right a \<and>
      area_top a \<le> pos_y p \<and> pos_y p \<le> area_bottom a)"

text \<open>The helpers of the examples. Their DOM helper is never called: the events of the
  examples carry their own position.\<close>

definition helpers_spec :: helpers where
  "helpers_spec =
     \<lparr>lookupByKey = lookupByKey_spec, rlookupByKey = rlookupByKey_spec,
      isPointInArea = isPointInArea_spec,
      dom_getRelativePosition = (\<lambda>d c. \<lparr>pos_x = 0, pos_y = 0\<rparr>)\<rparr>"

text \<open>The bracketing contract of a key lookup on a table: every index before \<open>lo\<close> holds
  a key that lies before the target, every index after \<open>hi\<close> a key that lies after it
  (in a reversed table the keys descend, so before is greater).\<close>

definition brackets :: "bool \<Rightarrow> lookup \<Rightarrow> element list \<Rightarrow> axis \<Rightarrow> bool" where
  "brackets reversed L table key =
     (\<forall>t i. i < length table \<longrightarrow>
        (int i < lo (L table key (Some t)) \<longrightarrow>
           (if reversed then js_less (Some t) (prop_at (table ! i) key)
            else js_less (prop_at (table ! i) key) (Some t))) \<and>
        (hi (L table key (Some t)) < int i \<longrightarrow>
           (if reversed then js_less (prop_at (table ! i) key) (Some t)
            else js_less (Some t) (prop_at (table ! i) key))))"

text \<open>The lookup that \<open>binarySearch\<close> chooses for a scale.\<close>

definition lookupMethod_of :: "helpers \<Rightarrow> scale \<Rightarrow> lookup" where
  "lookupMethod_of H sc = (if reversePixels sc then rlookupByKey H else lookupByKey H)"

text \<open>A table whose keys never descend, and one whose keys never ascend.\<close>

definition keys_ascending :: "element list \<Rightarrow> axis \<Rightarrow> bool" where
  "keys_ascending table key =
     sorted_wrt (\<lambda>a b. \<not> js_less (prop_at b key) (prop_at a key)) table"

definition keys_descending :: "element list \<Rightarrow> axis \<Rightarrow> bool" where
  "keys_descending table key =
     sorted_wrt (\<lambda>a b. \<not> js_less (prop_at a key) (prop_at b key)) table"

section \<open>Descriptions of the traversals and of the results\<close>

text \<open>The triples of one run of the loop from \<open>j\<close> to \<open>h\<close>, and the condition under
  which that loop reads outside its array.\<close>

definition range_items :: "nat \<Rightarrow> element list \<Rightarrow> int \<Rightarrow> int \<Rightarrow> visit list" where
  "range_items idx dat j h =
     filter (\<lambda>t. \<not> skip (fst t)) (map (\<lambda>k. (dat ! nat k, idx, k)) [j..h])"

definition out_of_bounds :: "element list \<Rightarrow> int \<Rightarrow> int \<Rightarrow> bool" where
  "out_of_bounds dat j h = (j \<le> h \<and> (j < 0 \<or> int (length dat) \<le> h))"

text \<open>The candidates of \<open>getNearestItems\<close> (with intersect: only the elements
  that contain the position), the distance of a visited element, and the loop invariant
  of its handler over the candidates seen so far.\<close>

definition is_candidate :: "position \<Rightarrow> bool \<Rightarrow> visit \<Rightarrow> bool" where
  "is_candidate p isect t = (if isect then inRange (fst t) (pos_x p) (pos_y p) else True)"

definition visit_distance :: "axis \<Rightarrow> position \<Rightarrow> visit \<Rightarrow> real" where
  "visit_distance ax p t = getDistanceMetricForAxis ax p (getCenterPoint (fst t))"

definition nearest_inv :: "axis \<Rightarrow> position \<Rightarrow> nearest_state \<Rightarrow> visit list \<Rightarrow> bool" where
  "nearest_inv ax p st cs =
     (if cs = [] then st = ([], None)
      else (\<exists>md. snd st = Some md
              \<and> list_all (\<lambda>t. md \<le> visit_distance ax p t) cs
              \<and> list_ex (\<lambda>t. visit_distance ax p t = md) cs
              \<and> fst st = map to_match (filter (\<lambda>t. visit_distance ax p t = md) cs)))"

text \<open>What the loop of index mode adds for one dataset.\<close>

definition index_entry :: "int \<Rightarrow> metaset \<Rightarrow> match list" where
  "index_entry i meta =
     (case js_nth (data meta) i of
        None \<Rightarrow> []
      | Some el \<Rightarrow>
          if \<not> skip el then [\<lparr>element = el, datasetIndex = index_meta meta, index = i\<rparr>] else [])"

section \<open>Example charts\<close>

text \<open>An element with a square hit box of half-width \<open>r\<close> around its centre.\<close>

definition box :: "bool \<Rightarrow> real \<Rightarrow> real \<Rightarrow> real \<Rightarrow> element" where
  "box sk cx cy r =
     \<lparr>skip = sk, el_x = cx, el_y = cy,
      inRange = (\<lambda>px py. \<bar>px - cx\<bar> \<le> r \<and> \<bar>py - cy\<bar> \<le> r),
      inXRange = (\<lambda>px. \<bar>px - cx\<bar> \<le> r),
      inYRange = (\<lambda>py. \<bar>py - cy\<bar> \<le> r),
      getCenterPoint = \<lparr>pos_x = cx, pos_y = cy\<rparr>,
      getRange = (\<lambda>ax. case ax of AxisXY \<Rightarrow> None | _ \<Rightarrow> Some r)\<rparr>"

definition area100 :: area where
  "area100 = \<lparr>area_left = 0, area_top = 0, area_right = 100, area_bottom = 100\<rparr>"

text \<open>One dataset with elements at x = 10, 20, 30, sorted along its index scale x.\<close>

definition meta_xs :: "bool \<Rightarrow> bool \<Rightarrow> metaset" where
  "meta_xs srt shared =
     \<lparr>index_meta = 0, data = [box False 10 50 2, box False 20 50 2, box False 30 50 2],
      sorted_flag = srt, iScale = Some \<lparr>scale_axis = ScaleX, reversePixels = False\<rparr>,
      sharedOptions = shared\<rparr>"

definition chart_xs :: chart where
  "chart_xs =
     \<lparr>chartArea = area100, getSortedVisibleDatasetMetas = [meta_xs True True],
      getDatasetMeta = (\<lambda>i. meta_xs True True)\<rparr>"

text \<open>A dataset along a reversed vertical index scale: the keys descend.\<close>

definition meta_desc :: metaset where
  "meta_desc =
     \<lparr>index_meta = 0,
      data = [box False 50 30 5, box False 50 22 5, box False 50 20 5, box False 50 18 5,
              box False 50 10 5],
      sorted_flag = True, iScale = Some \<lparr>scale_axis = ScaleY, reversePixels = True\<rparr>,
      sharedOptions = True\<rparr>"

text \<open>A dataset whose second element is skipped.\<close>

definition chart_skip :: chart where
  "chart_skip =
     (let m = \<lparr>index_meta = 0,
               data = [box False 10 50 2, box True 20 50 2, box False 30 50 2],
               sorted_flag = False, iScale = None, sharedOptions = False\<rparr>
      in \<lparr>chartArea = area100, getSortedVisibleDatasetMetas = [m], getDatasetMeta = (\<lambda>i. m)\<rparr>)"

text \<open>Two datasets with elements at the same x, one above the other.\<close>

definition meta_ab :: "nat \<Rightarrow> real \<Rightarrow> metaset" where
  "meta_ab i cy =
     \<lparr>index_meta = i, data = [box False 10 cy 2, box False 20 cy 2, box False 30 cy 2],
      sorted_flag = True, iScale = Some \<lparr>scale_axis = ScaleX, reversePixels = False\<rparr>,
      sharedOptions = True\<rparr>"

definition chart_ab :: chart where
  "chart_ab =
     \<lparr>chartArea = area100, getSortedVisibleDatasetMetas = [meta_ab 0 40, meta_ab 1 60],
      getDatasetMeta = (\<lambda>i. if i = 0 then meta_ab 0 40 else meta_ab 1 60)\<rparr>"

section \<open>The example element\<close>

lemma box_simps [simp]:
  "skip (box sk cx cy r) = sk"
  "el_x (box sk cx cy r) = cx"
  "el_y (box sk cx cy r) = cy"
  "inRange (box sk cx cy r) px py = (\<bar>px - cx\<bar> \<le> r \<and> \<bar>py - cy\<bar> \<le> r)"
  "inXRange (box sk cx cy r) px = (\<bar>px - cx\<bar> \<le> r)"
  "inYRange (box sk cx cy r) py = (\<bar>py - cy\<bar> \<le> r)"
  "getCenterPoint (box sk cx cy r) = \<lparr>pos_x = cx, pos_y = cy\<rparr>"
  "getRange (box sk cx cy r) ax = (case ax of AxisXY \<Rightarrow> None | _ \<Rightarrow> Some r)"
  by (simp_all add: box_def)

section \<open>Properties of the search range\<close>

text \<open>
  Claim C8. A dataset that is not flagged sorted, or is empty, or has no index scale, or
  whose index scale lies along another axis than the query's, gets the whole index range
  \<open>{lo: 0, hi: length - 1}\<close> from \<open>binarySearch\<close>, whatever the lookups would return.
\<close>

theorem binarySearch_fallback:
  assumes "\<not> sorted_flag m \<or> data m = [] \<or> iScale m = None
           \<or> (\<exists>sc. iScale m = Some sc \<and> axis_name ax \<noteq> scale_dir_name (scale_axis sc))"
  shows "binarySearch H m ax v isect = \<lparr>lo = 0, hi = int (length (data m)) - 1\<rparr>"
  using assms by (auto simp: binarySearch_def Let_def split: option.splits)

theorem binarySearch_fallback_witness:
  "\<not> sorted_flag (meta_xs False True)
   \<and> lookupByKey helpers_spec (data (meta_xs False True)) AxisX (Some 21) = \<lparr>lo = 1, hi = 2\<rparr>
   \<and> binarySearch helpers_spec (meta_xs False True) AxisX (Some 21) False = \<lparr>lo = 0, hi = 2\<rparr>"
  using binarySearch_fallback [of "meta_xs False True" AxisX helpers_spec "Some 21" False]
  by (simp add: meta_xs_def helpers_spec_def lookupByKey_spec_def box_def js_less_def)

text \<open>
  Claim C3, as stated: when intersect is requested and the dataset has no shared options
  (or its first element reports no range), \<open>binarySearch\<close> returns the result of the
  exact-value lookup. On the dataset with keys 10, 20, 30 and the target 21 the lookup
  brackets the target by \<open>{lo: 1, hi: 2}\<close>, and \<open>binarySearch\<close> with intersect returns
  \<open>{lo: 0, hi: 2}\<close>.
\<close>

theorem binarySearch_intersect_not_lookup:
  "can_search (meta_xs True False) AxisX \<and> \<not> sharedOptions (meta_xs True False)
   \<and> binarySearch helpers_spec (meta_xs True False) AxisX (Some 21) True = \<lparr>lo = 0, hi = 2\<rparr>
   \<and> binarySearch helpers_spec (meta_xs True False) AxisX (Some 21) False = \<lparr>lo = 1, hi = 2\<rparr>"
  by (simp add: binarySearch_def can_search_def meta_xs_def helpers_spec_def lookupByKey_spec_def box_def js_less_def)

text \<open>
  Claim C3, amended. When intersect is requested and the dataset has no shared options,
  or its first element reports no range for the axis, or reports the range 0,
  \<open>binarySearch\<close> returns the whole index range \<open>{lo: 0, hi: length - 1}\<close>: no lookup
  is made, and no index is left out.
\<close>

theorem binarySearch_intersect_fallback:
  assumes "isect"
      and "\<not> sharedOptions m \<or> getRange (hd (data m)) ax = None \<or> getRange (hd (data m)) ax = Some 0"
  shows "binarySearch H m ax v isect = \<lparr>lo = 0, hi = int (length (data m)) - 1\<rparr>"
  using assms by (auto simp: binarySearch_def Let_def split: option.splits)

theorem binarySearch_intersect_fallback_witness:
  "can_search (meta_xs True False) AxisX \<and> \<not> sharedOptions (meta_xs True False)
   \<and> binarySearch helpers_spec (meta_xs True False) AxisX (Some 21) True = \<lparr>lo = 0, hi = 2\<rparr>"
  using binarySearch_intersect_fallback [of True "meta_xs True False" AxisX helpers_spec "Some 21"]
  by (simp add: can_search_def meta_xs_def)

text \<open>
  Where the range of \<open>binarySearch\<close> holds every index whose key is the query value:
  without intersect, for either direction of the scale, when the chosen lookup brackets;
  and with or without intersect along a scale that is not reversed, when the range of the
  first element is not negative.
\<close>

lemma binarySearch_covers_without_intersect:
  assumes sc: "iScale m = Some sc"
      and br: "brackets (reversePixels sc) (lookupMethod_of H sc) (data m) ax"
      and i: "i < length (data m)" and key: "prop_at (data m ! i) ax = Some t"
  shows "lo (binarySearch H m ax (Some t) False) \<le> int i
         \<and> int i \<le> hi (binarySearch H m ax (Some t) False)"
proof (cases "can_search m ax")
  case False
  with sc i show ?thesis by (auto simp: binarySearch_def can_search_def)
next
  case True
  with sc have bs: "binarySearch H m ax (Some t) False = lookupMethod_of H sc (data m) ax (Some t)"
    by (simp add: binarySearch_def can_search_def lookupMethod_of_def)
  have "\<not> js_less (Some t) (prop_at (data m ! i) ax)" "\<not> js_less (prop_at (data m ! i) ax) (Some t)"
    using key by (simp_all add: js_less_def)
  with br i show ?thesis
    unfolding bs brackets_def by (metis not_le_imp_less)
qed

lemma binarySearch_covers_ascending:
  assumes sc: "iScale m = Some sc" and asc: "\<not> reversePixels sc"
      and br: "brackets False (lookupByKey H) (data m) ax"
      and rng: "\<And>rng. getRange (hd (data m)) ax = Some rng \<Longrightarrow> 0 \<le> rng"
      and i: "i < length (data m)" and key: "prop_at (data m ! i) ax = Some t"
  shows "lo (binarySearch H m ax (Some t) isect) \<le> int i
         \<and> int i \<le> hi (binarySearch H m ax (Some t) isect)"
proof -
  have below: "lo (lookupByKey H (data m) ax (Some u)) \<le> int i" if "u \<le> t" for u
    using br i key that unfolding brackets_def
    by (metis js_less_def not_le_imp_less old.prod.case option.case(2) not_less)
  have above: "int i \<le> hi (lookupByKey H (data m) ax (Some u))" if "t \<le> u" for u
    using br i key that unfolding brackets_def
    by (metis js_less_def not_le_imp_less old.prod.case option.case(2) not_less)
  have "binarySearch H m ax (Some t) isect = \<lparr>lo = 0, hi = int (length (data m)) - 1\<rparr>
      \<or> binarySearch H m ax (Some t) isect = lookupByKey H (data m) ax (Some t)
      \<or> (\<exists>rng. getRange (hd (data m)) ax = Some rng \<and>
            binarySearch H m ax (Some t) isect =
              \<lparr>lo = lo (lookupByKey H (data m) ax (Some (t - rng))),
               hi = hi (lookupByKey H (data m) ax (Some (t + rng)))\<rparr>)"
    using sc asc
    by (simp add: binarySearch_def Let_def js_minus_def js_plus_def split: option.splits)
  then consider (whole) "binarySearch H m ax (Some t) isect = \<lparr>lo = 0, hi = int (length (data m)) - 1\<rparr>"
    | (exact) "binarySearch H m ax (Some t) isect = lookupByKey H (data m) ax (Some t)"
    | (ranged) rng where "getRange (hd (data m)) ax = Some rng"
        "binarySearch H m ax (Some t) isect =
           \<lparr>lo = lo (lookupByKey H (data m) ax (Some (t - rng))),
            hi = hi (lookupByKey H (data m) ax (Some (t + rng)))\<rparr>"
    by blast
  then show ?thesis
  proof cases
    case whole
    with i show ?thesis by simp
  next
    case exact
    with below [of t] above [of t] show ?thesis by simp
  next
    case (ranged rng)
    with rng [of rng] below [of "t - rng"] above [of "t + rng"] show ?thesis by simp
  qed
qed

text \<open>
  The lookups modelled from the spec keep the bracketing contract on sorted tables.
\<close>

lemma takeWhile_holds: "i < length (takeWhile P xs) \<Longrightarrow> P (xs ! i)"
  by (metis nth_mem set_takeWhileD takeWhile_nth)

lemma js_less_trans_ge:
  assumes "js_less (Some t) (prop_at a key)" and "\<not> js_less (prop_at b key) (prop_at a key)"
  shows "js_less (Some t) (prop_at b key)"
  using assms by (cases key) (auto simp: js_less_def)

lemma js_less_trans_le:
  assumes "js_less (prop_at a key) (Some t)" and "\<not> js_less (prop_at a key) (prop_at b key)"
  shows "js_less (prop_at b key) (Some t)"
  using assms by (cases key) (auto simp: js_less_def)

lemma lookupByKey_spec_brackets:
  assumes "keys_ascending table key"
  shows "brackets False lookupByKey_spec table key"
  unfolding brackets_def
proof (intro allI impI conjI)
  fix t i
  assume i: "i < length table"
  { assume "int i < lo (lookupByKey_spec table key (Some t))"
    then have "i < length (takeWhile (\<lambda>el. js_less (prop_at el key) (Some t)) table)"
      by (simp add: lookupByKey_spec_def)
    from takeWhile_holds [OF this]
    show "if False then js_less (Some t) (prop_at (table ! i) key)
          else js_less (prop_at (table ! i) key) (Some t)" by simp }
  { assume h: "hi (lookupByKey_spec table key (Some t)) < int i"
    let ?n = "length (takeWhile (\<lambda>el. \<not> js_less (Some t) (prop_at el key)) table)"
    from h i have n: "?n < i" by (simp add: lookupByKey_spec_def)
    with i have "js_less (Some t) (prop_at (table ! ?n) key)"
      using nth_length_takeWhile [of "\<lambda>el. \<not> js_less (Some t) (prop_at el key)" table] by simp
    moreover have "\<not> js_less (prop_at (table ! i) key) (prop_at (table ! ?n) key)"
      using sorted_wrt_nth_less [OF assms [unfolded keys_ascending_def] n i] .
    ultimately have "js_less (Some t) (prop_at (table ! i) key)"
      by (rule js_less_trans_ge)
    then show "if False then js_less (prop_at (table ! i) key) (Some t)
          else js_less (Some t) (prop_at (table ! i) key)"
      by simp }
qed

lemma rlookupByKey_spec_brackets:
  assumes "keys_descending table key"
  shows "brackets True rlookupByKey_spec table key"
  unfolding brackets_def
proof (intro allI impI conjI)
  fix t i
  assume i: "i < length table"
  { assume "int i < lo (rlookupByKey_spec table key (Some t))"
    then have "i < length (takeWhile (\<lambda>el. js_less (Some t) (prop_at el key)) table)"
      by (simp add: rlookupByKey_spec_def)
    from takeWhile_holds [OF this]
    show "if True then js_less (Some t) (prop_at (table ! i) key)
          else js_less (prop_at (table ! i) key) (Some t)" by simp }
  { assume h: "hi (rlookupByKey_spec table key (Some t)) < int i"
    let ?n = "length (takeWhile (\<lambda>el. \<not> js_less (prop_at el key) (Some t)) table)"
    from h i have n: "?n < i" by (simp add: rlookupByKey_spec_def)
    with i have "js_less (prop_at (table ! ?n) key) (Some t)"
      using nth_length_takeWhile [of "\<lambda>el. \<not> js_less (prop_at el key) (Some t)" table] by simp
    moreover have "\<not> js_less (prop_at (table ! ?n) key) (prop_at (table ! i) key)"
      using sorted_wrt_nth_less [OF assms [unfolded keys_descending_def] n i] .
    ultimately have "js_less (prop_at (table ! i) key) (Some t)"
      by (rule js_less_trans_le)
    then show "if True then js_less (prop_at (table ! i) key) (Some t)
          else js_less (Some t) (prop_at (table ! i) key)"
      by simp }
qed

lemma meta_desc_brackets:
  "brackets True (rlookupByKey helpers_spec) (data meta_desc) AxisY"
proof -
  have "keys_descending (data meta_desc) AxisY"
    by (simp add: keys_descending_def meta_desc_def js_less_def)
  then show ?thesis
    by (simp add: helpers_spec_def rlookupByKey_spec_brackets)
qed

text \<open>
  Claim C4, at the input where the code leaves a match out. The keys descend along a
  reversed scale: 30, 22, 20, 18, 10; every element has the range 5, and the query value
  is 20, the key at index 2. The descending lookup brackets 15 by \<open>{lo: 3, hi: 4}\<close> and
  25 by \<open>{lo: 0, hi: 1}\<close>; \<open>binarySearch\<close> with intersect takes \<open>lo\<close> from the first
  and \<open>hi\<close> from the second and returns \<open>{lo: 3, hi: 1}\<close>, an empty range that misses
  index 2. Without intersect the range is \<open>{lo: 1, hi: 3}\<close>.
\<close>

theorem binarySearch_reversed_intersect_drops_match:
  "map (\<lambda>el. prop_at el AxisY) (data meta_desc) = [Some 30, Some 22, Some 20, Some 18, Some 10]
   \<and> getRange (hd (data meta_desc)) AxisY = Some 5
   \<and> rlookupByKey helpers_spec (data meta_desc) AxisY (Some 15) = \<lparr>lo = 3, hi = 4\<rparr>
   \<and> rlookupByKey helpers_spec (data meta_desc) AxisY (Some 25) = \<lparr>lo = 0, hi = 1\<rparr>
   \<and> binarySearch helpers_spec meta_desc AxisY (Some 20) True = \<lparr>lo = 3, hi = 1\<rparr>
   \<and> binarySearch helpers_spec meta_desc AxisY (Some 20) False = \<lparr>lo = 1, hi = 3\<rparr>"
  by (simp add: binarySearch_def meta_desc_def helpers_spec_def rlookupByKey_spec_def box_def js_less_def js_minus_def js_plus_def)

section \<open>The two traversals\<close>

lemma js_nth_append_length [simp]: "js_nth (pre @ el # els) (int (length pre)) = Some el"
  by (simp add: js_nth_def)

lemma evaluateRange_whole_suffix:
  "evaluateRange handler idx (pre @ els) (int (length pre)) (int (length (pre @ els)) - 1) s
     = Inr (evaluateData handler idx els (int (length pre)) s)"
proof (induction els arbitrary: pre s)
  case Nil
  show ?case by (simp add: evaluateRange.simps)
next
  case (Cons el els)
  have step: "evaluateRange handler idx ((pre @ [el]) @ els) (int (length (pre @ [el])))
                (int (length ((pre @ [el]) @ els)) - 1) s'
              = Inr (evaluateData handler idx els (int (length (pre @ [el]))) s')" for s'
    by (rule Cons.IH)
  show ?case
    using step by (subst evaluateRange.simps) (simp add: add.commute)
qed

lemma evaluateRange_whole:
  "evaluateRange handler idx dat 0 (int (length dat) - 1) s = Inr (evaluateData handler idx dat 0 s)"
  using evaluateRange_whole_suffix [of handler idx "[]" dat s] by simp

lemma binarySearch_xy:
  "binarySearch H m AxisXY v isect = \<lparr>lo = 0, hi = int (length (data m)) - 1\<rparr>"
proof (cases "iScale m")
  case None
  then show ?thesis by (simp add: binarySearch_def)
next
  case (Some sc)
  have "axis_name AxisXY \<noteq> scale_dir_name (scale_axis sc)"
    by (cases "scale_axis sc") simp_all
  with Some show ?thesis by (simp add: binarySearch_def)
qed

lemma optimizedMetasets_xy:
  "optimizedMetasets H AxisXY v handler isect ms s = Inr (evaluateMetasets handler ms s)"
  by (induction ms arbitrary: s) (simp_all add: binarySearch_xy evaluateRange_whole)

text \<open>
  Claim C10. For the axis 'xy' \<open>binarySearch\<close> returns the whole index range of every
  dataset, since no scale lies along 'xy'; the range-restricted traversal then never
  raises and calls its handler on the same triples, in the same order, as the traversal of
  all visible items: with any handler and any starting state the two end in the same
  state, and the recorded triples are the same list.
\<close>

theorem xy_traversal_is_full_traversal:
  "binarySearch H m AxisXY v isect = \<lparr>lo = 0, hi = int (length (data m)) - 1\<rparr>
   \<and> optimizedEvaluateItems H c AxisXY p handler isect s
       = Inr (evaluateAllVisibleItems c handler s)
   \<and> optimizedEvaluateItems H c AxisXY p record_visit isect []
       = Inr (evaluateAllVisibleItems c record_visit [])"
  by (simp add: binarySearch_xy optimizedEvaluateItems_def evaluateAllVisibleItems_def
        optimizedMetasets_xy)

text \<open>
  The traversal of all visible items runs its handler over \<open>visible_items\<close>.
\<close>

lemma apply_handler_Nil [simp]: "apply_handler handler s [] = s"
  by (simp add: apply_handler_def)

lemma apply_handler_Cons [simp]:
  "apply_handler handler s ((el, dsi, i) # ts) = apply_handler handler (handler el dsi i s) ts"
  by (simp add: apply_handler_def)

lemma apply_handler_append [simp]:
  "apply_handler handler s (ts @ us) = apply_handler handler (apply_handler handler s ts) us"
  by (simp add: apply_handler_def)

lemma evaluateData_trace:
  "evaluateData handler idx els j s
     = apply_handler handler s
         (filter (\<lambda>t. \<not> skip (fst t)) (map (\<lambda>k. (els ! k, idx, j + int k)) [0..<length els]))"
proof (induction els arbitrary: j s)
  case Nil
  show ?case by simp
next
  case (Cons el els)
  have "map (\<lambda>k. ((el # els) ! k, idx, j + int k)) [0..<length (el # els)]
        = (el, idx, j) # map (\<lambda>k. (els ! k, idx, (j + 1) + int k)) [0..<length els]"
    by (simp add: upt_conv_Cons map_Suc_upt [symmetric] del: upt_Suc) 
  then show ?case using Cons.IH [of "j + 1"] by simp
qed

lemma evaluateMetasets_trace:
  "evaluateMetasets handler ms s = apply_handler handler s (concat (map items_of ms))"
  by (induction ms arbitrary: s) (simp_all add: evaluateData_trace items_of_def)

lemma evaluateAllVisibleItems_trace:
  "evaluateAllVisibleItems c handler s = apply_handler handler s (visible_items c)"
  by (simp add: evaluateAllVisibleItems_def visible_items_def evaluateMetasets_trace)

lemma apply_record_visit: "apply_handler record_visit acc ts = acc @ ts"
  by (induction ts arbitrary: acc) (auto simp: record_visit_def)

lemma visible_items_not_skipped: "t \<in> set (visible_items c) \<Longrightarrow> \<not> skip (fst t)"
  by (auto simp: visible_items_def items_of_def)

text \<open>
  The loop from \<open>lo\<close> to \<open>hi\<close> in closed form, and the range-restricted traversal
  as the run of its handler over the triples it records.
\<close>

lemma evaluateRange_closed:
  "evaluateRange handler idx dat j h s =
     (if out_of_bounds dat j h then Inl TypeError
      else Inr (apply_handler handler s (range_items idx dat j h)))"
proof (induction handler idx dat j h s rule: evaluateRange.induct)
  case (1 handler idx dat j h s)
  show ?case
  proof (cases "j \<le> h")
    case False
    then show ?thesis
      by (subst evaluateRange.simps) (simp add: out_of_bounds_def range_items_def)
  next
    case le: True
    show ?thesis
    proof (cases "js_nth dat j")
      case None
      with le have "out_of_bounds dat j h"
        by (auto simp: js_nth_def out_of_bounds_def split: if_splits)
      with le None show ?thesis
        by (subst evaluateRange.simps) simp
    next
      case (Some el)
      then have inb: "0 \<le> j" "j < int (length dat)" and el: "el = dat ! nat j"
        by (auto simp: js_nth_def split: if_splits)
      have oob: "out_of_bounds dat (j + 1) h = out_of_bounds dat j h"
        using le inb by (auto simp: out_of_bounds_def)
      have items: "range_items idx dat j h =
          (if \<not> skip el then [(el, idx, j)] else []) @ range_items idx dat (j + 1) h"
        using le el by (simp add: range_items_def upto_rec1 [of j h])
      show ?thesis
        using "1.IH" [OF le Some] le Some oob items
        by (subst evaluateRange.simps) simp
    qed
  qed
qed

lemma optimizedMetasets_record:
  "optimizedMetasets H ax v record_visit isect ms acc =
     (case optimizedMetasets H ax v record_visit isect ms [] of
        Inl e \<Rightarrow> Inl e
      | Inr ts \<Rightarrow> Inr (acc @ ts))"
proof (induction ms arbitrary: acc)
  case Nil
  show ?case by simp
next
  case (Cons m ms)
  show ?case
    using Cons.IH [of "acc @ range_items (index_meta m) (data m) (lo (binarySearch H m ax v isect)) (hi (binarySearch H m ax v isect))"]
          Cons.IH [of "range_items (index_meta m) (data m) (lo (binarySearch H m ax v isect)) (hi (binarySearch H m ax v isect))"]
    by (simp add: evaluateRange_closed apply_record_visit Let_def split: sum.splits)
qed

lemma optimizedMetasets_fusion:
  "optimizedMetasets H ax v handler isect ms s =
     (case optimizedMetasets H ax v record_visit isect ms [] of
        Inl e \<Rightarrow> Inl e
      | Inr ts \<Rightarrow> Inr (apply_handler handler s ts))"
proof (induction ms arbitrary: s)
  case Nil
  show ?case by simp
next
  case (Cons m ms)
  let ?r = "binarySearch H m ax v isect"
  let ?items = "range_items (index_meta m) (data m) (lo ?r) (hi ?r)"
  show ?case
    using Cons.IH [of "apply_handler handler s ?items"]
          optimizedMetasets_record [of H ax v isect ms ?items]
    by (simp add: evaluateRange_closed apply_record_visit Let_def split: sum.splits)
qed

lemma optimizedEvaluateItems_fusion:
  "optimizedEvaluateItems H c ax p handler isect s =
     (case optimizedEvaluateItems H c ax p record_visit isect [] of
        Inl e \<Rightarrow> Inl e
      | Inr ts \<Rightarrow> Inr (apply_handler handler s ts))"
  unfolding optimizedEvaluateItems_def by (rule optimizedMetasets_fusion)

lemma range_items_not_skipped: "t \<in> set (range_items idx dat j h) \<Longrightarrow> \<not> skip (fst t)"
  by (auto simp: range_items_def)

lemma visits_not_skipped:
  "optimizedMetasets H ax v record_visit isect ms [] = Inr ts \<Longrightarrow> t \<in> set ts \<Longrightarrow> \<not> skip (fst t)"
proof (induction ms arbitrary: ts)
  case Nil
  then show ?case by simp
next
  case (Cons m ms)
  let ?r = "binarySearch H m ax v isect"
  let ?items = "range_items (index_meta m) (data m) (lo ?r) (hi ?r)"
  from Cons.prems(1) obtain ts' where rest: "optimizedMetasets H ax v record_visit isect ms [] = Inr ts'"
      and ts: "ts = ?items @ ts'"
    using optimizedMetasets_record [of H ax v isect ms ?items]
    by (auto simp: evaluateRange_closed apply_record_visit Let_def split: if_splits sum.splits)
  with Cons.IH [OF rest] Cons.prems(2) show ?case
    by (auto dest: range_items_not_skipped)
qed

text \<open>For the axis 'xy' the recorded triples are the visible items.\<close>

lemma visits_xy:
  "optimizedEvaluateItems H c AxisXY p record_visit isect [] = Inr (visible_items c)"
  by (simp add: optimizedEvaluateItems_def optimizedMetasets_xy evaluateMetasets_trace
        apply_record_visit visible_items_def)

section \<open>Modes x and y\<close>

lemma apply_xFunc:
  "apply_handler (xFunc p) (acc, b) ts =
     (acc @ map to_match (filter (\<lambda>t. inXRange (fst t) (pos_x p)) ts),
      b \<or> list_ex (\<lambda>t. inRange (fst t) (pos_x p) (pos_y p)) ts)"
  by (induction ts arbitrary: acc b) (auto simp: xFunc_def to_match_def)

lemma apply_yFunc:
  "apply_handler (yFunc p) (acc, b) ts =
     (acc @ map to_match (filter (\<lambda>t. inYRange (fst t) (pos_y p)) ts),
      b \<or> list_ex (\<lambda>t. inRange (fst t) (pos_x p) (pos_y p)) ts)"
  by (induction ts arbitrary: acc b) (auto simp: yFunc_def to_match_def)

lemma mode_x_items:
  "mode_x H c e opts =
     (if intersect opts \<and>
         \<not> list_ex (\<lambda>t. inRange (fst t) (pos_x (getRelativePosition H e c))
                            (pos_y (getRelativePosition H e c))) (visible_items c)
      then []
      else map to_match
             (filter (\<lambda>t. inXRange (fst t) (pos_x (getRelativePosition H e c)))
                (visible_items c)))"
  by (simp add: mode_x_def evaluateAllVisibleItems_trace apply_xFunc Let_def)

lemma mode_y_items:
  "mode_y H c e opts =
     (if intersect opts \<and>
         \<not> list_ex (\<lambda>t. inRange (fst t) (pos_x (getRelativePosition H e c))
                            (pos_y (getRelativePosition H e c))) (visible_items c)
      then []
      else map to_match
             (filter (\<lambda>t. inYRange (fst t) (pos_y (getRelativePosition H e c)))
                (visible_items c)))"
  by (simp add: mode_y_def evaluateAllVisibleItems_trace apply_yFunc Let_def)

text \<open>
  Claim C7. In modes x and y with intersect set, the result is empty when no visible,
  not skipped element contains the position, whatever lies in the axis range; with
  intersect unset, or with some element that contains the position, the result is every
  visible, not skipped element whose \<open>inXRange\<close> (for y: \<open>inYRange\<close>) holds, in the
  order of the traversal.
\<close>

theorem axis_modes_intersect_gating:
  "modes ModeX H c e opts =
     Inr (if intersect opts \<and>
             \<not> list_ex (\<lambda>t. inRange (fst t) (pos_x (getRelativePosition H e c))
                                (pos_y (getRelativePosition H e c))) (visible_items c)
          then []
          else map to_match
                 (filter (\<lambda>t. inXRange (fst t) (pos_x (getRelativePosition H e c)))
                    (visible_items c)))
   \<and> modes ModeY H c e opts =
     Inr (if intersect opts \<and>
             \<not> list_ex (\<lambda>t. inRange (fst t) (pos_x (getRelativePosition H e c))
                                (pos_y (getRelativePosition H e c))) (visible_items c)
          then []
          else map to_match
                 (filter (\<lambda>t. inYRange (fst t) (pos_y (getRelativePosition H e c)))
                    (visible_items c)))"
  using mode_x_items [of H c e opts] mode_y_items [of H c e opts] by simp

theorem axis_modes_intersect_gating_witness:
  "visible_items chart_xs =
     [(box False 10 50 2, 0, 0), (box False 20 50 2, 0, 1), (box False 30 50 2, 0, 2)]
   \<and> modes ModeX helpers_spec chart_xs (IEvent 20 10) \<lparr>opt_axis = None, intersect = True\<rparr>
       = Inr []
   \<and> modes ModeX helpers_spec chart_xs (IEvent 20 10) \<lparr>opt_axis = None, intersect = False\<rparr>
       = Inr [to_match (box False 20 50 2, 0, 1)]
   \<and> modes ModeY helpers_spec chart_xs (IEvent 20 50) \<lparr>opt_axis = None, intersect = True\<rparr>
       = Inr [to_match (box False 10 50 2, 0, 0), to_match (box False 20 50 2, 0, 1),
              to_match (box False 30 50 2, 0, 2)]"
proof -
  have items: "visible_items chart_xs =
     [(box False 10 50 2, 0, 0), (box False 20 50 2, 0, 1), (box False 30 50 2, 0, 2)]"
    by (simp add: visible_items_def items_of_def chart_xs_def meta_xs_def upt_rec)
  show ?thesis
    using axis_modes_intersect_gating [of helpers_spec chart_xs "IEvent 20 10"
            "\<lparr>opt_axis = None, intersect = True\<rparr>"]
          axis_modes_intersect_gating [of helpers_spec chart_xs "IEvent 20 10"
            "\<lparr>opt_axis = None, intersect = False\<rparr>"]
          axis_modes_intersect_gating [of helpers_spec chart_xs "IEvent 20 50"
            "\<lparr>opt_axis = None, intersect = True\<rparr>"]
    by (simp add: items)
qed

section \<open>Nearest items\<close>

lemma nearestFunc_skip:
  "\<not> is_candidate p isect (el, dsi, i) \<Longrightarrow> nearestFunc p ax isect el dsi i st = st"
  by (simp add: nearestFunc_def is_candidate_def split: if_splits)

lemma nearestFunc_step:
  assumes cand: "is_candidate p isect (el, dsi, i)"
      and inv: "nearest_inv ax p st cs"
  shows "nearest_inv ax p (nearestFunc p ax isect el dsi i st) (cs @ [(el, dsi, i)])"
proof -
  let ?t = "(el, dsi, i)"
  let ?d = "visit_distance ax p ?t"
  have run: "nearestFunc p ax isect el dsi i st =
      (case snd st of
         None \<Rightarrow> ([to_match ?t], Some ?d)
       | Some md \<Rightarrow> if ?d < md then ([to_match ?t], Some ?d)
                   else if ?d = md then (fst st @ [to_match ?t], Some md) else st)"
    using cand
    by (simp add: nearestFunc_def is_candidate_def visit_distance_def to_match_def Let_def
          split: if_splits option.splits)
  show ?thesis
  proof (cases "cs = []")
    case True
    with inv have "st = ([], None)" by (simp add: nearest_inv_def)
    with True run show ?thesis by (simp add: nearest_inv_def)
  next
    case False
    with inv obtain md where md: "snd st = Some md"
        and lb: "list_all (\<lambda>t. md \<le> visit_distance ax p t) cs"
        and ex: "list_ex (\<lambda>t. visit_distance ax p t = md) cs"
        and items: "fst st = map to_match (filter (\<lambda>t. visit_distance ax p t = md) cs)"
      by (auto simp: nearest_inv_def)
    consider (less) "?d < md" | (eq) "?d = md" | (greater) "md < ?d" by linarith
    then show ?thesis
    proof cases
      case less
      have "filter (\<lambda>t. visit_distance ax p t = ?d) cs = []"
        using lb less by (auto simp: filter_empty_conv list_all_iff)
      moreover have "list_all (\<lambda>t. ?d \<le> visit_distance ax p t) cs"
        using lb less by (auto simp: list_all_iff)
      ultimately show ?thesis
        using less md run by (simp add: nearest_inv_def)
    next
      case eq
      then show ?thesis
        using md run lb ex items by (simp add: nearest_inv_def)
    next
      case greater
      have "st = (fst st, snd st)" by simp
      then show ?thesis
        using greater md run lb ex items by (simp add: nearest_inv_def)
    qed
  qed
qed

lemma nearest_fold_inv:
  "nearest_inv ax p (apply_handler (nearestFunc p ax isect) ([], None) ts)
     (filter (is_candidate p isect) ts)"
proof (induction ts rule: rev_induct)
  case Nil
  show ?case by (simp add: nearest_inv_def)
next
  case (snoc t ts)
  obtain el dsi i where t: "t = (el, dsi, i)" by (cases t) auto
  show ?case
  proof (cases "is_candidate p isect t")
    case True
    with snoc t show ?thesis by (simp add: nearestFunc_step)
  next
    case False
    with snoc t show ?thesis by (simp add: nearestFunc_skip)
  qed
qed

lemma nearest_inv_minimal:
  assumes inv: "nearest_inv ax p st cs"
  shows "fst st = map to_match
           (filter (\<lambda>t. list_all (\<lambda>u. visit_distance ax p t \<le> visit_distance ax p u) cs) cs)"
proof (cases "cs = []")
  case True
  with inv show ?thesis by (simp add: nearest_inv_def)
next
  case False
  with inv obtain md where md: "snd st = Some md"
      and lb: "list_all (\<lambda>t. md \<le> visit_distance ax p t) cs"
      and ex: "list_ex (\<lambda>t. visit_distance ax p t = md) cs"
      and items: "fst st = map to_match (filter (\<lambda>t. visit_distance ax p t = md) cs)"
    by (auto simp: nearest_inv_def)
  have "(visit_distance ax p t = md)
          = list_all (\<lambda>u. visit_distance ax p t \<le> visit_distance ax p u) cs"
    if "t \<in> set cs" for t
    using lb ex that by (fastforce simp: list_all_iff list_ex_iff)
  then have "filter (\<lambda>t. visit_distance ax p t = md) cs
           = filter (\<lambda>t. list_all (\<lambda>u. visit_distance ax p t \<le> visit_distance ax p u) cs) cs"
    by (intro filter_cong refl) blast
  with items show ?thesis by simp
qed

lemma getNearestItems_exact:
  assumes area: "isPointInArea H p (chartArea c)"
      and tr: "optimizedEvaluateItems H c ax p record_visit False [] = Inr visits"
  shows "getNearestItems H c p ax isect =
           Inr (map to_match
                  (filter (\<lambda>t. list_all (\<lambda>u. visit_distance ax p t \<le> visit_distance ax p u)
                                  (filter (is_candidate p isect) visits))
                     (filter (is_candidate p isect) visits)))"
proof -
  have "optimizedEvaluateItems H c ax p (nearestFunc p ax isect) False ([], None)
          = Inr (apply_handler (nearestFunc p ax isect) ([], None) visits)"
    using tr by (subst optimizedEvaluateItems_fusion) simp
  then show ?thesis
    using area nearest_inv_minimal [OF nearest_fold_inv [of ax p isect visits]]
    by (simp add: getNearestItems_def)
qed

text \<open>With the default axis 'xy' the candidates are taken from all visible items.\<close>

lemma getNearestItems_xy:
  assumes "isPointInArea H p (chartArea c)"
  shows "getNearestItems H c p AxisXY isect =
           Inr (map to_match
                  (filter (\<lambda>t. list_all (\<lambda>u. visit_distance AxisXY p t \<le> visit_distance AxisXY p u)
                                  (filter (is_candidate p isect) (visible_items c)))
                     (filter (is_candidate p isect) (visible_items c))))"
  using assms visits_xy by (rule getNearestItems_exact)

text \<open>
  Claim C5. In nearest mode, at a position inside the chart area, every candidate (a
  triple the traversal visits; with intersect, one whose element contains the position)
  whose distance to the position is the least among the candidates is in the result: of
  candidates that tie at the least distance, compared by equality of the distances, all
  are returned.
\<close>

theorem nearest_returns_all_ties:
  assumes area: "isPointInArea H (getRelativePosition H e c) (chartArea c)"
      and tr: "optimizedEvaluateItems H c (or_default (opt_axis opts) AxisXY)
                 (getRelativePosition H e c) record_visit False [] = Inr visits"
      and t: "t \<in> set visits"
             "is_candidate (getRelativePosition H e c) (intersect opts) t"
      and least: "\<forall>u \<in> set visits.
                   is_candidate (getRelativePosition H e c) (intersect opts) u \<longrightarrow>
                   visit_distance (or_default (opt_axis opts) AxisXY) (getRelativePosition H e c) t
                   \<le> visit_distance (or_default (opt_axis opts) AxisXY) (getRelativePosition H e c) u"
  shows "\<exists>res. modes Nearest H c e opts = Inr res \<and> to_match t \<in> set res"
  using getNearestItems_exact [OF area tr, of "intersect opts"] t least
  by (auto simp: mode_nearest_def list_all_iff)

lemma visits_chart_xs:
  "optimizedEvaluateItems helpers_spec chart_xs AxisXY p record_visit False []
     = Inr [(box False 10 50 2, 0, 0), (box False 20 50 2, 0, 1), (box False 30 50 2, 0, 2)]"
  unfolding optimizedEvaluateItems_def optimizedMetasets_xy
  by (simp add: chart_xs_def meta_xs_def record_visit_def)

theorem nearest_returns_all_ties_witness:
  "isPointInArea helpers_spec (getRelativePosition helpers_spec (IEvent 15 50) chart_xs)
     (chartArea chart_xs)
   \<and> visit_distance AxisXY \<lparr>pos_x = 15, pos_y = 50\<rparr> (box False 10 50 2, 0, 0) = 5
   \<and> visit_distance AxisXY \<lparr>pos_x = 15, pos_y = 50\<rparr> (box False 20 50 2, 0, 1) = 5
   \<and> (\<exists>res. modes Nearest helpers_spec chart_xs (IEvent 15 50)
               \<lparr>opt_axis = None, intersect = False\<rparr> = Inr res
            \<and> to_match (box False 10 50 2, 0, 0) \<in> set res
            \<and> to_match (box False 20 50 2, 0, 1) \<in> set res)"
proof -
  let ?opts = "\<lparr>opt_axis = None, intersect = False\<rparr>"
  let ?p = "getRelativePosition helpers_spec (IEvent 15 50) chart_xs"
  have area: "isPointInArea helpers_spec ?p (chartArea chart_xs)"
    by (simp add: helpers_spec_def isPointInArea_spec_def chart_xs_def area100_def)
  have ax: "or_default (opt_axis ?opts) AxisXY = AxisXY"
    by (simp add: or_default_def)
  have tr: "optimizedEvaluateItems helpers_spec chart_xs (or_default (opt_axis ?opts) AxisXY) ?p
              record_visit False []
            = Inr [(box False 10 50 2, 0, 0), (box False 20 50 2, 0, 1), (box False 30 50 2, 0, 2)]"
    unfolding ax by (rule visits_chart_xs)
  have d0: "visit_distance AxisXY \<lparr>pos_x = 15, pos_y = 50\<rparr> (box False 10 50 2, 0, 0) = 5"
    and d1: "visit_distance AxisXY \<lparr>pos_x = 15, pos_y = 50\<rparr> (box False 20 50 2, 0, 1) = 5"
    and d2: "visit_distance AxisXY \<lparr>pos_x = 15, pos_y = 50\<rparr> (box False 30 50 2, 0, 2) = 15"
    by (simp_all add: visit_distance_def getDistanceMetricForAxis_def box_def)
  have r0: "\<exists>res. modes Nearest helpers_spec chart_xs (IEvent 15 50) ?opts = Inr res
            \<and> to_match (box False 10 50 2, 0, 0) \<in> set res"
    by (rule nearest_returns_all_ties [OF area tr])
       (simp_all add: is_candidate_def or_default_def d0 d1 d2)
  have r1: "\<exists>res. modes Nearest helpers_spec chart_xs (IEvent 15 50) ?opts = Inr res
            \<and> to_match (box False 20 50 2, 0, 1) \<in> set res"
    by (rule nearest_returns_all_ties [OF area tr])
       (simp_all add: is_candidate_def or_default_def d0 d1 d2)
  from r0 r1 area d0 d1 show ?thesis by auto
qed

text \<open>
  The scenario of the spec: elements at x = 10, 20, 30, the position (21, 0), the axis
  'x': the element at x = 20 alone.
\<close>

lemma nearest_example:
  "modes Nearest helpers_spec chart_xs (IEvent 21 0) \<lparr>opt_axis = Some AxisX, intersect = False\<rparr>
     = Inr [\<lparr>element = box False 20 50 2, datasetIndex = 0, index = 1\<rparr>]"
  apply (simp add: mode_nearest_def chart_xs_def getNearestItems_def helpers_spec_def isPointInArea_spec_def area100_def or_default_def optimizedEvaluateItems_def meta_xs_def Let_def)
  apply (simp add: binarySearch_def lookupByKey_spec_def box_def js_less_def evaluateRange.simps js_nth_def)
  apply (simp add: nearestFunc_def box_def getDistanceMetricForAxis_def)
  done

section \<open>Index mode\<close>

lemma index_collect_entries:
  "index_collect metas i elements = elements @ concat (map (index_entry i) metas)"
  by (induction metas arbitrary: elements) (auto simp: index_entry_def split: option.splits)

lemma index_entries_subseq:
  "\<exists>ms. subseq ms metas \<and>
        list_all2 (\<lambda>r m. datasetIndex r = index_meta m \<and> js_nth (data m) i = Some (element r))
          (concat (map (index_entry i) metas)) ms"
proof (induction metas)
  case Nil
  show ?case by simp
next
  case (Cons meta metas)
  then obtain ms where ms: "subseq ms metas"
      "list_all2 (\<lambda>r m. datasetIndex r = index_meta m \<and> js_nth (data m) i = Some (element r))
          (concat (map (index_entry i) metas)) ms"
    by blast
  show ?case
  proof (cases "index_entry i meta = []")
    case True
    with ms show ?thesis by (intro exI [of _ ms]) auto
  next
    case False
    then obtain el where "js_nth (data meta) i = Some el"
        "index_entry i meta = [\<lparr>element = el, datasetIndex = index_meta meta, index = i\<rparr>]"
      by (auto simp: index_entry_def split: option.splits if_splits)
    with ms show ?thesis by (intro exI [of _ "meta # ms"]) simp
  qed
qed

lemma index_entries_index: "r \<in> set (concat (map (index_entry i) metas)) \<Longrightarrow> index r = i"
  by (auto simp: index_entry_def split: option.splits if_splits)

lemma index_entries_not_skipped:
  "r \<in> set (concat (map (index_entry i) metas)) \<Longrightarrow> \<not> skip (element r)"
  by (auto simp: index_entry_def split: option.splits if_splits)

text \<open>
  Claim C6. In index mode, when the first search finds an item, the result holds, for
  every visible dataset with an element at the index of that item that is not skipped, the
  match of that element.
\<close>

theorem index_mode_alignment:
  assumes "index_items H c e opts = Inr (item # rest)"
      and "meta \<in> set (getSortedVisibleDatasetMetas c)"
      and "js_nth (data meta) (index item) = Some el"
      and "\<not> skip el"
  shows "\<exists>res. modes Index H c e opts = Inr res \<and>
           \<lparr>element = el, datasetIndex = index_meta meta, index = index item\<rparr> \<in> set res"
  using assms by (force simp: mode_index_def index_collect_entries index_entry_def)

lemma index_items_chart_ab:
  "index_items helpers_spec chart_ab (IEvent 21 50) \<lparr>opt_axis = None, intersect = False\<rparr>
     = Inr [\<lparr>element = box False 20 40 2, datasetIndex = 0, index = 1\<rparr>,
            \<lparr>element = box False 20 60 2, datasetIndex = 1, index = 1\<rparr>]"
  apply (simp add: index_items_def chart_ab_def getNearestItems_def helpers_spec_def
      isPointInArea_spec_def area100_def or_default_def optimizedEvaluateItems_def meta_ab_def
      Let_def)
  apply (simp add: binarySearch_def lookupByKey_spec_def box_def js_less_def evaluateRange.simps
      js_nth_def)
  apply (simp add: nearestFunc_def box_def getDistanceMetricForAxis_def)
  done

theorem index_mode_alignment_witness:
  "index_items helpers_spec chart_ab (IEvent 21 50) \<lparr>opt_axis = None, intersect = False\<rparr>
     = Inr [\<lparr>element = box False 20 40 2, datasetIndex = 0, index = 1\<rparr>,
            \<lparr>element = box False 20 60 2, datasetIndex = 1, index = 1\<rparr>]
   \<and> js_nth (data (meta_ab 1 60)) 1 = Some (box False 20 60 2)
   \<and> \<not> skip (box False 20 60 2)
   \<and> (\<exists>res. modes Index helpers_spec chart_ab (IEvent 21 50)
               \<lparr>opt_axis = None, intersect = False\<rparr> = Inr res
            \<and> \<lparr>element = box False 20 60 2, datasetIndex = 1, index = 1\<rparr> \<in> set res)"
proof -
  have meta: "meta_ab 1 60 \<in> set (getSortedVisibleDatasetMetas chart_ab)"
    by (simp add: chart_ab_def)
  have el: "js_nth (data (meta_ab 1 60)) 1 = Some (box False 20 60 2)"
    by (simp add: meta_ab_def js_nth_def)
  have "js_nth (data (meta_ab 1 60))
          (index \<lparr>element = box False 20 40 2, datasetIndex = 0, index = 1\<rparr>)
        = Some (box False 20 60 2)"
    using el by simp
  moreover have ns: "\<not> skip (box False 20 60 2)"
    by (simp add: box_def)
  ultimately show ?thesis
    using index_mode_alignment [OF index_items_chart_ab meta] el
    by (simp add: index_items_chart_ab meta_ab_def)
qed

text \<open>
  Claim C9. A result of index mode that is not empty comes from a first item of the
  first search; every match has the index of that item; the matches are, in order, those
  of a subsequence of the visible datasets (so at most one for each), and the element of
  each match is the element of its dataset at that index.
\<close>

theorem index_mode_shared_index:
  assumes "modes Index H c e opts = Inr res" and "res \<noteq> []"
  shows "\<exists>item rest ms.
           index_items H c e opts = Inr (item # rest) \<and>
           (\<forall>r \<in> set res. index r = index item) \<and>
           subseq ms (getSortedVisibleDatasetMetas c) \<and>
           list_all2 (\<lambda>r m. datasetIndex r = index_meta m \<and>
                            js_nth (data m) (index item) = Some (element r)) res ms"
proof -
  from assms obtain item rest where items: "index_items H c e opts = Inr (item # rest)"
      and res: "res = concat (map (index_entry (index item)) (getSortedVisibleDatasetMetas c))"
    by (auto simp: mode_index_def index_collect_entries split: sum.splits list.splits)
  from index_entries_subseq [of "getSortedVisibleDatasetMetas c" "index item"] res
  obtain ms where "subseq ms (getSortedVisibleDatasetMetas c)"
      "list_all2 (\<lambda>r m. datasetIndex r = index_meta m \<and>
                        js_nth (data m) (index item) = Some (element r)) res ms"
    by blast
  moreover have "\<forall>r \<in> set res. index r = index item"
    using res index_entries_index by blast
  ultimately show ?thesis
    using items by blast
qed

lemma mode_index_chart_ab:
  "modes Index helpers_spec chart_ab (IEvent 21 50) \<lparr>opt_axis = None, intersect = False\<rparr>
     = Inr [\<lparr>element = box False 20 40 2, datasetIndex = 0, index = 1\<rparr>,
            \<lparr>element = box False 20 60 2, datasetIndex = 1, index = 1\<rparr>]"
  by (simp add: mode_index_def index_items_chart_ab)
     (simp add: chart_ab_def meta_ab_def js_nth_def box_def)

theorem index_mode_shared_index_witness:
  "modes Index helpers_spec chart_ab (IEvent 21 50) \<lparr>opt_axis = None, intersect = False\<rparr>
     = Inr [\<lparr>element = box False 20 40 2, datasetIndex = 0, index = 1\<rparr>,
            \<lparr>element = box False 20 60 2, datasetIndex = 1, index = 1\<rparr>]
   \<and> (\<exists>item rest ms.
         index_items helpers_spec chart_ab (IEvent 21 50) \<lparr>opt_axis = None, intersect = False\<rparr>
           = Inr (item # rest) \<and>
         index item = 1 \<and>
         subseq ms (getSortedVisibleDatasetMetas chart_ab) \<and>
         list_all2 (\<lambda>r m. datasetIndex r = index_meta m \<and>
                          js_nth (data m) (index item) = Some (element r))
           [\<lparr>element = box False 20 40 2, datasetIndex = 0, index = 1\<rparr>,
            \<lparr>element = box False 20 60 2, datasetIndex = 1, index = 1\<rparr>] ms)"
  using index_mode_shared_index [OF mode_index_chart_ab] mode_index_chart_ab
  by auto

section \<open>The chart area\<close>

text \<open>
  Claim C2, as stated: every mode returns the empty result at a position outside the
  chart area. Mode x at the position (20, 150), below the area from 0 to 100, returns the
  element at x = 20.
\<close>

theorem outside_area_mode_x:
  "\<not> isPointInArea helpers_spec (getRelativePosition helpers_spec (IEvent 20 150) chart_xs)
       (chartArea chart_xs)
   \<and> modes ModeX helpers_spec chart_xs (IEvent 20 150) \<lparr>opt_axis = None, intersect = False\<rparr>
       = Inr [\<lparr>element = box False 20 50 2, datasetIndex = 0, index = 1\<rparr>]"
  by (simp add: mode_x_def chart_xs_def helpers_spec_def isPointInArea_spec_def area100_def
        evaluateAllVisibleItems_def meta_xs_def xFunc_def box_def Let_def)

text \<open>
  Claim C2, amended. Modes index, dataset, point and nearest return the empty result,
  and raise no error, at every position that the point-in-area test rejects. Modes x and
  y never consult the chart area.
\<close>

theorem outside_area_empty:
  assumes "\<not> isPointInArea H (getRelativePosition H e c) (chartArea c)"
      and "md \<in> {Index, Dataset, Point, Nearest}"
  shows "modes md H c e opts = Inr []"
  using assms
  by (auto simp: mode_index_def index_items_def mode_dataset_def mode_point_def mode_nearest_def
        getIntersectItems_def getNearestItems_def Let_def)

theorem outside_area_empty_witness:
  "\<not> isPointInArea helpers_spec (getRelativePosition helpers_spec (IEvent 200 0) chart_xs)
       (chartArea chart_xs)
   \<and> modes Index helpers_spec chart_xs (IEvent 200 0) \<lparr>opt_axis = None, intersect = False\<rparr> = Inr []
   \<and> modes Dataset helpers_spec chart_xs (IEvent 200 0) \<lparr>opt_axis = None, intersect = False\<rparr> = Inr []
   \<and> modes Point helpers_spec chart_xs (IEvent 200 0) \<lparr>opt_axis = None, intersect = False\<rparr> = Inr []
   \<and> modes Nearest helpers_spec chart_xs (IEvent 200 0) \<lparr>opt_axis = None, intersect = False\<rparr> = Inr []"
proof -
  have out: "\<not> isPointInArea helpers_spec (getRelativePosition helpers_spec (IEvent 200 0) chart_xs)
       (chartArea chart_xs)"
    by (simp add: helpers_spec_def isPointInArea_spec_def chart_xs_def area100_def)
  show ?thesis
    using out outside_area_empty [OF out, of Index] outside_area_empty [OF out, of Dataset]
      outside_area_empty [OF out, of Point] outside_area_empty [OF out, of Nearest]
    by simp
qed

section \<open>Skipped elements\<close>

text \<open>
  Every mode but dataset returns only elements that are not skipped.
\<close>

lemma apply_intersectFunc:
  "apply_handler (intersectFunc p) acc ts =
     acc @ map to_match (filter (\<lambda>t. inRange (fst t) (pos_x p) (pos_y p)) ts)"
  by (induction ts arbitrary: acc) (auto simp: intersectFunc_def to_match_def)

lemma getIntersectItems_not_skipped:
  assumes "getIntersectItems H c p ax = Inr res" and "r \<in> set res"
  shows "\<not> skip (element r)"
proof (cases "isPointInArea H p (chartArea c)")
  case False
  with assms show ?thesis by (simp add: getIntersectItems_def)
next
  case True
  with assms(1) obtain ts where tr: "optimizedEvaluateItems H c ax p record_visit True [] = Inr ts"
      and res: "res = map to_match (filter (\<lambda>t. inRange (fst t) (pos_x p) (pos_y p)) ts)"
    using optimizedEvaluateItems_fusion [of H c ax p "intersectFunc p" True "[]"]
    by (auto simp: getIntersectItems_def apply_intersectFunc split: sum.splits)
  from res assms(2) obtain t where "t \<in> set ts" "r = to_match t" by auto
  with tr show ?thesis
    by (auto simp: optimizedEvaluateItems_def to_match_def dest: visits_not_skipped)
qed

lemma getNearestItems_not_skipped:
  assumes "getNearestItems H c p ax isect = Inr res" and "r \<in> set res"
  shows "\<not> skip (element r)"
proof (cases "isPointInArea H p (chartArea c)")
  case False
  with assms show ?thesis by (simp add: getNearestItems_def)
next
  case True
  show ?thesis
  proof (cases "optimizedEvaluateItems H c ax p record_visit False []")
    case (Inl err)
    then have "getNearestItems H c p ax isect = Inl err"
      using True optimizedEvaluateItems_fusion [of H c ax p "nearestFunc p ax isect" False "([], None)"]
      by (simp add: getNearestItems_def)
    with assms(1) show ?thesis by simp
  next
    case (Inr ts)
    from getNearestItems_exact [OF True Inr, of isect] assms
    obtain t where "t \<in> set ts" "r = to_match t" by auto
    with Inr show ?thesis
      by (auto simp: optimizedEvaluateItems_def to_match_def dest: visits_not_skipped)
  qed
qed

lemma modes_but_dataset_not_skipped:
  assumes "md \<noteq> Dataset" and "modes md H c e opts = Inr res" and "r \<in> set res"
  shows "\<not> skip (element r)"
proof (cases md)
  case Index
  with assms(2) have "res = [] \<or> (\<exists>i. res = concat (map (index_entry i) (getSortedVisibleDatasetMetas c)))"
    by (auto simp: mode_index_def index_collect_entries split: sum.splits list.splits)
  with assms(3) show ?thesis by (auto dest: index_entries_not_skipped)
next
  case Dataset
  with assms(1) show ?thesis by simp
next
  case Point
  with assms show ?thesis by (auto simp: mode_point_def dest: getIntersectItems_not_skipped)
next
  case Nearest
  with assms show ?thesis by (auto simp: mode_nearest_def dest: getNearestItems_not_skipped)
next
  case ModeX
  with assms(2,3) obtain t where "t \<in> set (visible_items c)" "r = to_match t"
    by (auto simp: mode_x_items split: if_splits)
  then show ?thesis
    using visible_items_not_skipped [of t c] by (simp add: to_match_def)
next
  case ModeY
  with assms(2,3) obtain t where "t \<in> set (visible_items c)" "r = to_match t"
    by (auto simp: mode_y_items split: if_splits)
  then show ?thesis
    using visible_items_not_skipped [of t c] by (simp add: to_match_def)
qed

text \<open>
  Claim C1, at the input where the code returns a skipped element. The dataset holds a
  skipped element at index 1; dataset mode, at the centre of the element at index 0,
  returns all three elements of the dataset, the skipped one among them.
\<close>

theorem dataset_mode_returns_skipped:
  "modes Dataset helpers_spec chart_skip (IEvent 10 50) \<lparr>opt_axis = None, intersect = False\<rparr>
     = Inr [\<lparr>element = box False 10 50 2, datasetIndex = 0, index = 0\<rparr>,
            \<lparr>element = box True 20 50 2, datasetIndex = 0, index = 1\<rparr>,
            \<lparr>element = box False 30 50 2, datasetIndex = 0, index = 2\<rparr>]
   \<and> skip (box True 20 50 2)"
proof -
  have "getNearestItems helpers_spec chart_skip \<lparr>pos_x = 10, pos_y = 50\<rparr> AxisXY False
          = Inr [\<lparr>element = box False 10 50 2, datasetIndex = 0, index = 0\<rparr>]"
    unfolding getNearestItems_def optimizedEvaluateItems_def optimizedMetasets_xy
    by (simp add: chart_skip_def helpers_spec_def isPointInArea_spec_def area100_def Let_def
          nearestFunc_def getDistanceMetricForAxis_def)
  then show ?thesis
    by (simp add: mode_dataset_def or_default_def) (simp add: chart_skip_def Let_def box_def)
qed

end
